theory Spec2Isabelle
  imports Main "HOL-Library.AList"
begin

section \<open>JSON-RPC messages\<close>

text \<open>
  A Go value of type \<^verbatim>\<open>interface{}\<close>, as far as \<^verbatim>\<open>encoding/json\<close> tells values apart:
  the JSON shapes, and \<open>JUnsupported\<close> for a value the encoder rejects (a channel, a
  function, a NaN); its argument is the encoder's error text. A nil interface in a
  struct field is \<open>None\<close> of \<open>jvalue option\<close>.
\<close>

datatype jvalue =
    JNull
  | JBool bool
  | JNum int
  | JStr string
  | JArr "jvalue list"
  | JObj "(string \<times> jvalue) list"
  | JUnsupported string

text \<open>\<^verbatim>\<open>type RPCError struct { Code int; Message string; Data interface{} }\<close>\<close>

record RPCError =
  Code :: int
  Message :: string
  Data :: "jvalue option"

text \<open>
  \<^verbatim>\<open>type JSONRPCMessage struct\<close>: \<open>ID\<close>, \<open>Params\<close> and \<open>Result\<close> are interfaces and
  \<open>Error\<close> is a pointer, so each of them may be nil (\<open>None\<close>); \<open>Method\<close> is a string
  whose zero value is the empty string.
\<close>

record JSONRPCMessage =
  JSONRPC :: string
  ID :: "jvalue option"
  Method :: string
  Params :: "jvalue option"
  Result :: "jvalue option"
  Error :: "RPCError option"

definition NewRequest :: "jvalue option \<Rightarrow> string \<Rightarrow> jvalue option \<Rightarrow> JSONRPCMessage" where
  "NewRequest mid method params =
     \<lparr>JSONRPC = ''2.0'', ID = mid, Method = method, Params = params,
      Result = None, Error = None\<rparr>"

definition NewResponse :: "jvalue option \<Rightarrow> jvalue option \<Rightarrow> JSONRPCMessage" where
  "NewResponse mid result =
     \<lparr>JSONRPC = ''2.0'', ID = mid, Method = '''', Params = None,
      Result = result, Error = None\<rparr>"

definition NewErrorResponse ::
  "jvalue option \<Rightarrow> int \<Rightarrow> string \<Rightarrow> jvalue option \<Rightarrow> JSONRPCMessage" where
  "NewErrorResponse mid code message data =
     \<lparr>JSONRPC = ''2.0'', ID = mid, Method = '''', Params = None, Result = None,
      Error = Some \<lparr>Code = code, Message = message, Data = data\<rparr>\<rparr>"

definition NewNotification :: "string \<Rightarrow> jvalue option \<Rightarrow> JSONRPCMessage" where
  "NewNotification method params =
     \<lparr>JSONRPC = ''2.0'', ID = None, Method = method, Params = params,
      Result = None, Error = None\<rparr>"

definition IsRequest :: "JSONRPCMessage \<Rightarrow> bool" where
  "IsRequest m \<longleftrightarrow> Method m \<noteq> '''' \<and> ID m \<noteq> None"

definition IsResponse :: "JSONRPCMessage \<Rightarrow> bool" where
  "IsResponse m \<longleftrightarrow>
     Method m = '''' \<and> ID m \<noteq> None \<and> (Result m \<noteq> None \<or> Error m \<noteq> None)"

definition IsNotification :: "JSONRPCMessage \<Rightarrow> bool" where
  "IsNotification m \<longleftrightarrow> Method m \<noteq> '''' \<and> ID m = None"

definition IsError :: "JSONRPCMessage \<Rightarrow> bool" where
  "IsError m \<longleftrightarrow> Error m \<noteq> None"

section \<open>The streamer's classification\<close>

definition getEventType :: "JSONRPCMessage \<Rightarrow> string" where
  "getEventType message =
     (if IsNotification message then ''mcp_notification''
      else if IsResponse message then
        (if IsError message then ''mcp_error'' else ''mcp_response'')
      else if IsRequest message then ''mcp_request''
      else ''mcp_message'')"

text \<open>
  The precedence as the specification words it, each shape with exactly the
  conditions it names: notification (method, no id), request (method and id), error
  response (no method, error), success response (no method, result, no error).
\<close>

definition eventType_as_stated :: "JSONRPCMessage \<Rightarrow> string" where
  "eventType_as_stated m =
     (if Method m \<noteq> '''' \<and> ID m = None then ''mcp_notification''
      else if Method m \<noteq> '''' \<and> ID m \<noteq> None then ''mcp_request''
      else if Method m = '''' \<and> Error m \<noteq> None then ''mcp_error''
      else if Method m = '''' \<and> Result m \<noteq> None \<and> Error m = None then ''mcp_response''
      else ''mcp_message'')"

text \<open>The same precedence with the correlation id required of both response shapes.\<close>

definition eventType_by_precedence :: "JSONRPCMessage \<Rightarrow> string" where
  "eventType_by_precedence m =
     (if Method m \<noteq> '''' \<and> ID m = None then ''mcp_notification''
      else if Method m \<noteq> '''' \<and> ID m \<noteq> None then ''mcp_request''
      else if Method m = '''' \<and> ID m \<noteq> None \<and> Error m \<noteq> None then ''mcp_error''
      else if Method m = '''' \<and> ID m \<noteq> None \<and> Result m \<noteq> None \<and> Error m = None
        then ''mcp_response''
      else ''mcp_message'')"

section \<open>The JSON library, as the code uses it\<close>

text \<open>
  \<^verbatim>\<open>json.Marshal\<close> and \<^verbatim>\<open>json.Unmarshal\<close> belong to the Go library, not to the
  repository, so the functions below take them as a parameter: \<open>Marshal\<close> returns the
  bytes (\<open>Inr\<close>) or the text of its error (\<open>Inl\<close>), and so does \<open>Unmarshal\<close> with the
  decoded value.
\<close>

record codec =
  Marshal :: "jvalue \<Rightarrow> string + string"
  Unmarshal :: "string \<Rightarrow> string + jvalue"

text \<open>
  What the encoder is handed for a struct: one member per field, named by the field's
  \<^verbatim>\<open>json\<close> tag, a field tagged \<^verbatim>\<open>omitempty\<close> left out when it is nil or the empty
  string.
\<close>

definition omitempty :: "string \<Rightarrow> jvalue option \<Rightarrow> (string \<times> jvalue) list" where
  "omitempty k v = (case v of None \<Rightarrow> [] | Some x \<Rightarrow> [(k, x)])"

definition RPCError_value :: "RPCError \<Rightarrow> jvalue" where
  "RPCError_value e =
     JObj ([(''code'', JNum (Code e)), (''message'', JStr (Message e))] @
           omitempty ''data'' (Data e))"

definition JSONRPCMessage_value :: "JSONRPCMessage \<Rightarrow> jvalue" where
  "JSONRPCMessage_value m =
     JObj ([(''jsonrpc'', JStr (JSONRPC m))] @
           omitempty ''id'' (ID m) @
           (if Method m = '''' then [] else [(''method'', JStr (Method m))]) @
           omitempty ''params'' (Params m) @
           omitempty ''result'' (Result m) @
           omitempty ''error'' (map_option RPCError_value (Error m)))"

section \<open>Formatting\<close>

definition getCurrentTimestamp :: int where
  "getCurrentTimestamp = 1640995200"

text \<open>
  \<open>eventData\<close> is a Go map; it is kept as an association list with unique keys, an
  assignment \<^verbatim>\<open>eventData[k] = v\<close> being \<open>AList.update k v\<close>.
\<close>

definition formatMessageForSSE ::
  "codec \<Rightarrow> JSONRPCMessage \<Rightarrow> string + (string \<times> jvalue) list" where
  "formatMessageForSSE J message =
     (case Marshal J (JSONRPCMessage_value message) of
        Inl err \<Rightarrow> Inl err
      | Inr messageBytes \<Rightarrow>
          (case Unmarshal J messageBytes of
             Inl err \<Rightarrow> Inl err
           | Inr messageMap \<Rightarrow>
               (let eventData =
                      [(''mcp_message'', messageMap),
                       (''timestamp'', JNum getCurrentTimestamp)]
                in Inr (if IsRequest message then
                          AList.update ''message_type'' (JStr ''request'') eventData
                        else if IsResponse message then
                          AList.update ''message_type'' (JStr ''response'') eventData
                        else if IsNotification message then
                          AList.update ''message_type'' (JStr ''notification'') eventData
                        else eventData))))"

definition formatSSEEvent :: "codec \<Rightarrow> string \<Rightarrow> jvalue \<Rightarrow> string" where
  "formatSSEEvent J eventType data =
     (let jsonData =
            (case Marshal J data of
               Inl err \<Rightarrow> ''{\"error\": \"failed to marshal data: '' @ err @ ''\"}''
             | Inr bytes \<Rightarrow> bytes)
      in ''event: '' @ eventType @ ''\<newline>data: '' @ jsonData @ ''\<newline>\<newline>'')"

section \<open>Connections and the stream handler\<close>

text \<open>
  \<^verbatim>\<open>http.ResponseWriter\<close> is an interface of the library. A writer is modelled by what
  the handler can observe of it: the chunks written so far, one per \<^verbatim>\<open>Write\<close>, whether
  a \<^verbatim>\<open>Write\<close> now fails (the peer is gone), and whether it was flushed. A failing
  \<^verbatim>\<open>Write\<close> is taken to write nothing.
\<close>

record ResponseWriter =
  written :: "string list"
  failing :: bool
  flushed :: bool

text \<open>
  \<^verbatim>\<open>type ClientConnection struct\<close>. \<open>Done\<close> is a \<^verbatim>\<open>chan struct{}\<close> that is only
  ever closed, never sent on: \<open>True\<close> once closed. \<open>Flusher\<close> is the \<open>Writer\<close> under its
  other interface. The field \<^verbatim>\<open>ID\<close> is \<open>ClientID\<close> here, \<open>ID\<close> being the message's.
  Times are nanoseconds since the epoch.
\<close>

record ClientConnection =
  ClientID :: string
  Writer :: ResponseWriter
  Done :: bool
  LastSeen :: int

type_synonym addr = nat

datatype failure = Panic string | Failed string

text \<open>
  \<^verbatim>\<open>type StreamHandler struct\<close>. The registry holds pointers, so the connections live
  in a store \<open>heap\<close> and \<open>clients\<close> maps an id to an address; \<open>clients\<close> is an association
  list, whose order stands for the order in which a \<^verbatim>\<open>range\<close> over the Go map visits
  it. \<open>next_addr\<close> is the next unused address, \<open>clock\<close> what \<^verbatim>\<open>time.Now()\<close> returns, in
  nanoseconds. \<open>calls\<close> is not a field of the source: it records, in order, the
  arguments of every call of \<open>sendEvent\<close>, which is how a delivery that writes nothing
  is told from no delivery.
\<close>

record StreamHandler =
  heap :: "addr \<Rightarrow> ClientConnection"
  clients :: "(string \<times> addr) list"
  stopCh :: bool
  next_addr :: addr
  clock :: int
  calls :: "(addr \<times> string \<times> jvalue) list"

text \<open>\<^verbatim>\<open>close(ch)\<close> panics on a channel that is closed already.\<close>

definition close_chan :: "bool \<Rightarrow> failure + bool" where
  "close_chan ch = (if ch then Inl (Panic ''close of closed channel'') else Inr True)"

text \<open>
  \<open>NewStreamHandler\<close>: no client, \<open>stopCh\<close> open. Its argument is the clock's reading,
  which is part of the state here; the store holds a zero connection at every address.
  The fields \<open>logger\<close>, \<open>streamer\<close>, \<open>heartbeat\<close> and \<open>wg\<close> have no part in what follows.
\<close>

definition NewStreamHandler :: "int \<Rightarrow> StreamHandler" where
  "NewStreamHandler now =
     \<lparr>heap = (\<lambda>_. \<lparr>ClientID = '''', Writer = \<lparr>written = [], failing = False, flushed = False\<rparr>,
                    Done = False, LastSeen = 0\<rparr>),
      clients = [], stopCh = False, next_addr = 0, clock = now, calls = []\<rparr>"

definition GetConnectedClients :: "StreamHandler \<Rightarrow> int" where
  "GetConnectedClients sh = int (length (clients sh))"

definition addClient :: "addr \<Rightarrow> StreamHandler \<Rightarrow> StreamHandler" where
  "addClient client sh =
     sh\<lparr>clients := AList.update (ClientID (heap sh client)) client (clients sh)\<rparr>"

definition removeClient :: "string \<Rightarrow> StreamHandler \<Rightarrow> StreamHandler" where
  "removeClient clientID sh = sh\<lparr>clients := AList.delete clientID (clients sh)\<rparr>"

text \<open>
  \<open>sendEvent\<close>: return if \<open>Done\<close> is closed; format the event; write it, and on an
  error close \<open>Done\<close> and return; flush; set \<open>LastSeen\<close>. The first step of the model
  records the call in \<open>calls\<close>.
\<close>

definition sendEvent ::
  "codec \<Rightarrow> addr \<Rightarrow> string \<Rightarrow> jvalue \<Rightarrow> StreamHandler \<Rightarrow> failure + StreamHandler" where
  "sendEvent J client eventType data sh0 =
     (let sh = sh0\<lparr>calls := calls sh0 @ [(client, eventType, data)]\<rparr>;
          c = heap sh client
      in if Done c then Inr sh
         else
           (let event = formatSSEEvent J eventType data
            in if failing (Writer c) then
                 (case close_chan (Done c) of
                    Inl p \<Rightarrow> Inl p
                  | Inr d \<Rightarrow> Inr (sh\<lparr>heap := (heap sh)(client := c\<lparr>Done := d\<rparr>)\<rparr>))
               else
                 Inr (sh\<lparr>heap := (heap sh)(client :=
                        c\<lparr>Writer := (Writer c)\<lparr>written := written (Writer c) @ [event],
                                               flushed := True\<rparr>,
                          LastSeen := clock sh\<rparr>)\<rparr>)))"

text \<open>The loop \<^verbatim>\<open>for _, client := range clients { sh.sendEvent(client, ...) }\<close>.\<close>

fun sendAll ::
  "codec \<Rightarrow> addr list \<Rightarrow> string \<Rightarrow> jvalue \<Rightarrow> StreamHandler \<Rightarrow> failure + StreamHandler" where
  "sendAll J [] eventType data sh = Inr sh"
| "sendAll J (client # rest) eventType data sh =
     (case sendEvent J client eventType data sh of
        Inl p \<Rightarrow> Inl p
      | Inr sh' \<Rightarrow> sendAll J rest eventType data sh')"

definition BroadcastMessage ::
  "codec \<Rightarrow> string \<Rightarrow> jvalue \<Rightarrow> StreamHandler \<Rightarrow> failure + StreamHandler" where
  "BroadcastMessage J eventType data sh =
     (let snapshot = map snd (clients sh) in sendAll J snapshot eventType data sh)"

definition SendToClient ::
  "codec \<Rightarrow> string \<Rightarrow> string \<Rightarrow> jvalue \<Rightarrow> StreamHandler \<Rightarrow> failure + StreamHandler" where
  "SendToClient J clientID eventType data sh =
     (case map_of (clients sh) clientID of
        None \<Rightarrow> Inr sh
      | Some client \<Rightarrow> sendEvent J client eventType data sh)"

definition sendHeartbeat :: "codec \<Rightarrow> StreamHandler \<Rightarrow> failure + StreamHandler" where
  "sendHeartbeat J sh =
     (let snapshot = map snd (clients sh)
      in sendAll J snapshot ''heartbeat''
           (JObj [(''timestamp'', JNum (clock sh div 1000000000))]) sh)"

text \<open>The loop \<^verbatim>\<open>for _, client := range sh.clients { close(client.Done) }\<close> of \<open>Stop\<close>.\<close>

fun closeAll ::
  "addr list \<Rightarrow> (addr \<Rightarrow> ClientConnection) \<Rightarrow> failure + (addr \<Rightarrow> ClientConnection)" where
  "closeAll [] h = Inr h"
| "closeAll (client # rest) h =
     (case close_chan (Done (h client)) of
        Inl p \<Rightarrow> Inl p
      | Inr d \<Rightarrow> closeAll rest (h(client := (h client)\<lparr>Done := d\<rparr>)))"

text \<open>
  \<open>Stop\<close>: \<^verbatim>\<open>sh.wg.Wait()\<close> waits for the heartbeat loop, which only returns; it has no
  effect on the state.
\<close>

definition Stop :: "StreamHandler \<Rightarrow> failure + StreamHandler" where
  "Stop sh =
     (case close_chan (stopCh sh) of
        Inl p \<Rightarrow> Inl p
      | Inr ch \<Rightarrow>
          (case closeAll (map snd (clients sh)) (heap sh) of
             Inl p \<Rightarrow> Inl p
           | Inr h \<Rightarrow> Inr (sh\<lparr>stopCh := ch, heap := h, clients := []\<rparr>)))"

section \<open>Accepting a connection\<close>

text \<open>\<^verbatim>\<open>fmt.Sprintf("%d", n)\<close>: the decimal digits of an integer.\<close>

definition digit_char :: "nat \<Rightarrow> char" where
  "digit_char d = ''0123456789'' ! d"

function show_digits :: "int \<Rightarrow> string" where
  "show_digits n =
     (if n < 10 then [digit_char (nat n)]
      else show_digits (n div 10) @ [digit_char (nat (n mod 10))])"
  by pat_completeness auto
termination
  by (relation "measure nat") auto

declare show_digits.simps [simp del]

definition show_int :: "int \<Rightarrow> string" where
  "show_int i = (if i < 0 then ''-'' @ show_digits (- i) else show_digits i)"

definition generateClientID :: "StreamHandler \<Rightarrow> string" where
  "generateClientID sh = ''client_'' @ show_int (clock sh)"

text \<open>
  \<open>HandleSSE\<close> blocks between registering the connection and removing it.
  \<open>HandleSSE_enter\<close> runs it up to the \<^verbatim>\<open>select\<close> with nothing in between: \<open>canFlush\<close> is
  the outcome of the type assertion \<^verbatim>\<open>w.(http.Flusher)\<close>; when it fails the error reply
  goes to a writer that is never registered, and the response headers are not part of
  the state. \<open>HandleSSE_leave\<close> is the deferred \<^verbatim>\<open>sh.removeClient(clientID)\<close>.

  \<open>addClient\<close> releases the registry lock before the greeting is sent, so other calls
  can run between the two. \<open>HandleSSE_register\<close> is the first part, up to and including
  \<open>addClient\<close>; \<open>HandleSSE_greet\<close> is the second, the greeting that \<open>HandleSSE\<close> sends
  through its own pointer to the connection it created, whose id it carries.
\<close>

definition HandleSSE_enter ::
  "codec \<Rightarrow> ResponseWriter \<Rightarrow> bool \<Rightarrow> StreamHandler \<Rightarrow> failure + StreamHandler" where
  "HandleSSE_enter J w canFlush sh =
     (if \<not> canFlush then Inr sh
      else
        (let clientID = generateClientID sh;
             client = next_addr sh;
             sh1 = sh\<lparr>heap := (heap sh)(client :=
                        \<lparr>ClientID = clientID, Writer = w, Done = False, LastSeen = clock sh\<rparr>),
                      next_addr := Suc client\<rparr>;
             sh2 = addClient client sh1
         in sendEvent J client ''connected''
              (JObj [(''clientId'', JStr clientID),
                     (''message'', JStr ''Connected to MCP stream'')]) sh2))"

definition HandleSSE_register :: "ResponseWriter \<Rightarrow> bool \<Rightarrow> StreamHandler \<Rightarrow> StreamHandler" where
  "HandleSSE_register w canFlush sh =
     (if \<not> canFlush then sh
      else
        (let clientID = generateClientID sh;
             client = next_addr sh;
             sh1 = sh\<lparr>heap := (heap sh)(client :=
                        \<lparr>ClientID = clientID, Writer = w, Done = False, LastSeen = clock sh\<rparr>),
                      next_addr := Suc client\<rparr>
         in addClient client sh1))"

definition HandleSSE_greet :: "codec \<Rightarrow> addr \<Rightarrow> StreamHandler \<Rightarrow> failure + StreamHandler" where
  "HandleSSE_greet J client sh =
     sendEvent J client ''connected''
       (JObj [(''clientId'', JStr (ClientID (heap sh client))),
              (''message'', JStr ''Connected to MCP stream'')]) sh"

definition HandleSSE_leave :: "string \<Rightarrow> StreamHandler \<Rightarrow> StreamHandler" where
  "HandleSSE_leave clientID sh = removeClient clientID sh"

section \<open>The streamer\<close>

text \<open>
  \<open>MCPStreamer\<close> holds a \<open>StreamHandlerInterface\<close> that may be nil; here it is the
  stream handler itself, \<open>None\<close> when nil. A returned error is \<open>Inl (Failed err)\<close>, a
  return of nil is \<open>Inr\<close> with the handler as the call leaves it. Logging is left out.
\<close>

definition StreamMessage ::
  "codec \<Rightarrow> JSONRPCMessage \<Rightarrow> StreamHandler option \<Rightarrow> failure + StreamHandler option" where
  "StreamMessage J message streamHandler =
     (case streamHandler of
        None \<Rightarrow> Inr None
      | Some sh \<Rightarrow>
          if GetConnectedClients sh = 0 then Inr (Some sh)
          else
            (case formatMessageForSSE J message of
               Inl err \<Rightarrow> Inl (Failed err)
             | Inr eventData \<Rightarrow>
                 (let eventType = getEventType message
                  in case BroadcastMessage J eventType (JObj eventData) sh of
                       Inl p \<Rightarrow> Inl p
                     | Inr sh' \<Rightarrow> Inr (Some sh'))))"

definition StreamMessageToClient ::
  "codec \<Rightarrow> string \<Rightarrow> JSONRPCMessage \<Rightarrow> StreamHandler option \<Rightarrow>
   failure + StreamHandler option" where
  "StreamMessageToClient J clientID message streamHandler =
     (case streamHandler of
        None \<Rightarrow> Inr None
      | Some sh \<Rightarrow>
          (case formatMessageForSSE J message of
             Inl err \<Rightarrow> Inl (Failed err)
           | Inr eventData \<Rightarrow>
               (let eventType = getEventType message
                in case SendToClient J clientID eventType (JObj eventData) sh of
                     Inl p \<Rightarrow> Inl p
                   | Inr sh' \<Rightarrow> Inr (Some sh'))))"

definition StreamNotification ::
  "codec \<Rightarrow> string \<Rightarrow> jvalue option \<Rightarrow> StreamHandler option \<Rightarrow>
   failure + StreamHandler option" where
  "StreamNotification J method params streamHandler =
     StreamMessage J (NewNotification method params) streamHandler"

definition StreamToolProgress ::
  "codec \<Rightarrow> string \<Rightarrow> jvalue \<Rightarrow> StreamHandler option \<Rightarrow> failure + StreamHandler option" where
  "StreamToolProgress J toolName progress streamHandler =
     StreamNotification J ''tools/progress''
       (Some (JObj [(''tool'', JStr toolName), (''progress'', progress)])) streamHandler"

definition StreamError ::
  "codec \<Rightarrow> int \<Rightarrow> string \<Rightarrow> jvalue \<Rightarrow> StreamHandler option \<Rightarrow>
   failure + StreamHandler option" where
  "StreamError J errorCode message data streamHandler =
     (case streamHandler of
        None \<Rightarrow> Inr None
      | Some sh \<Rightarrow>
          (case BroadcastMessage J ''error''
                  (JObj [(''code'', JNum errorCode), (''message'', JStr message),
                         (''data'', data)]) sh of
             Inl p \<Rightarrow> Inl p
           | Inr sh' \<Rightarrow> Inr (Some sh')))"

section \<open>A JSON codec to run the code with\<close>

text \<open>
  An instance of the library parameter, for evaluating the functions on concrete
  inputs: compact JSON text, the members of an object written in the byte order of
  their keys, integers as numbers, and the escapes \<^verbatim>\<open>\"\<close>, \<^verbatim>\<open>\\\<close> and \<^verbatim>\<open>\n\<close> in
  strings. The library orders the keys of a map so and writes the fields of a struct
  in the order of their declaration; the only struct encoded here is the message,
  whose text is decoded into a map at once. The encoder fails on \<open>JUnsupported\<close>,
  with its text as the error.
\<close>

fun str_less :: "string \<Rightarrow> string \<Rightarrow> bool" where
  "str_less [] [] = False"
| "str_less [] (y # ys) = True"
| "str_less (x # xs) [] = False"
| "str_less (x # xs) (y # ys) =
     ((of_char x :: int) < of_char y \<or> (x = y \<and> str_less xs ys))"

fun insert_member :: "string \<times> 'a \<Rightarrow> (string \<times> 'a) list \<Rightarrow> (string \<times> 'a) list" where
  "insert_member kv [] = [kv]"
| "insert_member kv (p # ps) =
     (if str_less (fst p) (fst kv) then p # insert_member kv ps else kv # p # ps)"

definition sort_members :: "(string \<times> 'a) list \<Rightarrow> (string \<times> 'a) list" where
  "sort_members ms = foldr insert_member ms []"

fun escape_string :: "string \<Rightarrow> string" where
  "escape_string [] = []"
| "escape_string (c # cs) =
     (if c = CHR 0x22 then [CHR 0x5C, CHR 0x22]
      else if c = CHR 0x5C then [CHR 0x5C, CHR 0x5C]
      else if c = CHR 0x0A then [CHR 0x5C, CHR ''n'']
      else [c]) @ escape_string cs"

fun join_comma :: "string list \<Rightarrow> string" where
  "join_comma [] = []"
| "join_comma [x] = x"
| "join_comma (x # y # ys) = x @ '','' @ join_comma (y # ys)"

fun supported :: "jvalue \<Rightarrow> string option" where
  "supported (JUnsupported err) = Some err"
| "supported (JArr []) = None"
| "supported (JArr (v # vs)) =
     (case supported v of Some err \<Rightarrow> Some err | None \<Rightarrow> supported (JArr vs))"
| "supported (JObj []) = None"
| "supported (JObj (kv # ms)) =
     (case supported (snd kv) of Some err \<Rightarrow> Some err | None \<Rightarrow> supported (JObj ms))"
| "supported v = None"

fun json_text :: "jvalue \<Rightarrow> string" where
  "json_text JNull = ''null''"
| "json_text (JBool b) = (if b then ''true'' else ''false'')"
| "json_text (JNum i) = show_int i"
| "json_text (JStr s) = ''\"'' @ escape_string s @ ''\"''"
| "json_text (JArr vs) = ''['' @ join_comma (map json_text vs) @ '']''"
| "json_text (JObj ms) =
     ''{'' @ join_comma (map (\<lambda>(k, t). ''\"'' @ escape_string k @ ''\":'' @ t)
                           (sort_members (map (\<lambda>kv. (fst kv, json_text (snd kv))) ms))) @ ''}''"
| "json_text (JUnsupported err) = []"

definition json_Marshal :: "jvalue \<Rightarrow> string + string" where
  "json_Marshal v = (case supported v of Some err \<Rightarrow> Inl err | None \<Rightarrow> Inr (json_text v))"

definition is_digit :: "char \<Rightarrow> bool" where
  "is_digit c \<longleftrightarrow> c \<in> set ''0123456789''"

fun parse_digits :: "int \<Rightarrow> string \<Rightarrow> int \<times> string" where
  "parse_digits acc [] = (acc, [])"
| "parse_digits acc (c # cs) =
     (if is_digit c then parse_digits (10 * acc + (of_char c - 48)) cs else (acc, c # cs))"

text \<open>The rest of a string literal, after its opening quote.\<close>

fun parse_string :: "string \<Rightarrow> string \<Rightarrow> (string \<times> string) option" where
  "parse_string acc [] = None"
| "parse_string acc [c] = (if c = CHR 0x22 then Some (rev acc, []) else None)"
| "parse_string acc (c # d # ds) =
     (if c = CHR 0x22 then Some (rev acc, d # ds)
      else if c = CHR 0x5C then
        parse_string ((if d = CHR ''n'' then CHR 0x0A else d) # acc) ds
      else parse_string (c # acc) (d # ds))"

text \<open>
  A recursive-descent parser; the first argument bounds the depth of the recursion,
  and \<open>json_Unmarshal\<close> starts it with the length of the text.
\<close>

fun parse_value :: "nat \<Rightarrow> string \<Rightarrow> (jvalue \<times> string) option"
  and parse_elements :: "nat \<Rightarrow> jvalue list \<Rightarrow> string \<Rightarrow> (jvalue list \<times> string) option"
  and parse_members ::
    "nat \<Rightarrow> (string \<times> jvalue) list \<Rightarrow> string \<Rightarrow> ((string \<times> jvalue) list \<times> string) option"
where
  "parse_value 0 s = None"
| "parse_value (Suc n) [] = None"
| "parse_value (Suc n) (c # r) =
     (if c = CHR ''n'' then (if take 3 r = ''ull'' then Some (JNull, drop 3 r) else None)
      else if c = CHR ''t'' then
        (if take 3 r = ''rue'' then Some (JBool True, drop 3 r) else None)
      else if c = CHR ''f'' then
        (if take 4 r = ''alse'' then Some (JBool False, drop 4 r) else None)
      else if c = CHR 0x22 then
        (case parse_string [] r of None \<Rightarrow> None | Some (x, r') \<Rightarrow> Some (JStr x, r'))
      else if c = CHR ''['' then
        (if take 1 r = '']'' then Some (JArr [], drop 1 r)
         else (case parse_elements n [] r of
                 None \<Rightarrow> None | Some (vs, r') \<Rightarrow> Some (JArr vs, r')))
      else if c = CHR ''{'' then
        (if take 1 r = ''}'' then Some (JObj [], drop 1 r)
         else (case parse_members n [] r of
                 None \<Rightarrow> None | Some (ms, r') \<Rightarrow> Some (JObj ms, r')))
      else if c = CHR ''-'' then
        (case parse_digits 0 r of (k, r') \<Rightarrow> Some (JNum (- k), r'))
      else if is_digit c then
        (case parse_digits 0 (c # r) of (k, r') \<Rightarrow> Some (JNum k, r'))
      else None)"
| "parse_elements 0 acc s = None"
| "parse_elements (Suc n) acc s =
     (case parse_value n s of
        None \<Rightarrow> None
      | Some (v, r) \<Rightarrow>
          (if take 1 r = '','' then parse_elements n (v # acc) (drop 1 r)
           else if take 1 r = '']'' then Some (rev (v # acc), drop 1 r)
           else None))"
| "parse_members 0 acc s = None"
| "parse_members (Suc n) acc s =
     (if take 1 s \<noteq> ''\"'' then None
      else
        (case parse_string [] (drop 1 s) of
           None \<Rightarrow> None
         | Some (k, r) \<Rightarrow>
             (if take 1 r \<noteq> '':'' then None
              else
                (case parse_value n (drop 1 r) of
                   None \<Rightarrow> None
                 | Some (v, r') \<Rightarrow>
                     (if take 1 r' = '','' then parse_members n ((k, v) # acc) (drop 1 r')
                      else if take 1 r' = ''}'' then Some (rev ((k, v) # acc), drop 1 r')
                      else None)))))"

text \<open>
  Decoding into a \<^verbatim>\<open>map[string]interface{}\<close>, which is what the code asks for: the
  text has to be one JSON object and nothing more.
\<close>

definition json_Unmarshal :: "string \<Rightarrow> string + jvalue" where
  "json_Unmarshal s =
     (case parse_value (length s) s of
        Some (JObj ms, []) \<Rightarrow> Inr (JObj ms)
      | _ \<Rightarrow> Inl ''json: cannot unmarshal into Go value of type map[string]interface {}'')"

definition json_codec :: codec where
  "json_codec = \<lparr>Marshal = json_Marshal, Unmarshal = json_Unmarshal\<rparr>"

section \<open>Runs of the hub\<close>

text \<open>
  The operations through which the rest of the program and the clients reach a stream
  handler, and a run of them in sequence; \<open>Tick\<close> is the clock advancing. A panic
  ends the run. The streamer reaches the connections through \<open>BroadcastMessage\<close> and
  \<open>SendToClient\<close> only. \<open>HandleSSE\<close> enters a run in its parts: \<open>Register\<close>, then \<open>Greet\<close> of
  the connection it created, then \<open>Leave\<close>, with any other operation in between. A run
  may greet any allocated connection at any time, which is more than the source does:
  it greets each connection once, after registering it.
\<close>

datatype hub_op =
    Broadcast string jvalue
  | Send string string jvalue
  | Heartbeat
  | Register ResponseWriter bool
  | Greet addr
  | Leave string
  | Tick int
  | Shutdown

fun step :: "codec \<Rightarrow> hub_op \<Rightarrow> StreamHandler \<Rightarrow> failure + StreamHandler" where
  "step J (Broadcast eventType data) sh = BroadcastMessage J eventType data sh"
| "step J (Send clientID eventType data) sh = SendToClient J clientID eventType data sh"
| "step J Heartbeat sh = sendHeartbeat J sh"
| "step J (Register w canFlush) sh = Inr (HandleSSE_register w canFlush sh)"
| "step J (Greet client) sh =
     (if client < next_addr sh then HandleSSE_greet J client sh else Inr sh)"
| "step J (Leave clientID) sh = Inr (HandleSSE_leave clientID sh)"
| "step J (Tick now) sh = Inr (sh\<lparr>clock := now\<rparr>)"
| "step J Shutdown sh = Stop sh"

fun run :: "codec \<Rightarrow> hub_op list \<Rightarrow> StreamHandler \<Rightarrow> failure + StreamHandler" where
  "run J [] sh = Inr sh"
| "run J (x # xs) sh = (case step J x sh of Inl p \<Rightarrow> Inl p | Inr sh' \<Rightarrow> run J xs sh')"

section \<open>Concrete inputs\<close>

text \<open>
  A connection as \<open>HandleSSE\<close> creates it, with a writer that works or fails, and a
  handler whose registry holds the given connections at the addresses \<open>0, 1, ...\<close>.
\<close>

definition open_conn :: "string \<Rightarrow> bool \<Rightarrow> ClientConnection" where
  "open_conn cid broken =
     \<lparr>ClientID = cid, Writer = \<lparr>written = [], failing = broken, flushed = False\<rparr>,
      Done = False, LastSeen = 0\<rparr>"

definition handler_of :: "ClientConnection list \<Rightarrow> int \<Rightarrow> StreamHandler" where
  "handler_of cs now =
     \<lparr>heap = (\<lambda>a. if a < length cs then cs ! a else open_conn '''' False),
      clients = zip (map ClientID cs) [0..<length cs],
      stopCh = False, next_addr = length cs, clock = now, calls = []\<rparr>"

definition two_clients :: StreamHandler where
  "two_clients = handler_of [open_conn ''client_1'' False, open_conn ''client_2'' False] 5"

text \<open>\<^verbatim>\<open>NewRequest(1, "tools/list", nil)\<close>, its event data and its frame.\<close>

definition tools_list_request :: JSONRPCMessage where
  "tools_list_request = NewRequest (Some (JNum 1)) ''tools/list'' None"

definition tools_list_eventData :: "(string \<times> jvalue) list" where
  "tools_list_eventData =
     [(''mcp_message'',
       JObj [(''id'', JNum 1), (''jsonrpc'', JStr ''2.0''), (''method'', JStr ''tools/list'')]),
      (''timestamp'', JNum 1640995200),
      (''message_type'', JStr ''request'')]"

definition tools_list_frame :: string where
  "tools_list_frame =
     ''event: mcp_request\<newline>data: {\"mcp_message\":{\"id\":1,\"jsonrpc\":\"2.0\",\"method\":\"tools/list\"},\"message_type\":\"request\",\"timestamp\":1640995200}\<newline>\<newline>''"

text \<open>A message with a version and nothing else: no request, response or notification.\<close>

definition bare_message :: JSONRPCMessage where
  "bare_message =
     \<lparr>JSONRPC = ''2.0'', ID = None, Method = '''', Params = None, Result = None,
      Error = None\<rparr>"

definition bare_eventData :: "(string \<times> jvalue) list" where
  "bare_eventData =
     [(''mcp_message'', JObj [(''jsonrpc'', JStr ''2.0'')]),
      (''timestamp'', JNum 1640995200)]"

definition bare_frame :: string where
  "bare_frame =
     ''event: mcp_message\<newline>data: {\"mcp_message\":{\"jsonrpc\":\"2.0\"},\"timestamp\":1640995200}\<newline>\<newline>''"

text \<open>One connection whose writer fails, and a writer that works.\<close>

definition failing_client :: StreamHandler where
  "failing_client = handler_of [open_conn ''client_1'' True] 5"

definition working_writer :: ResponseWriter where
  "working_writer = \<lparr>written = [], failing = False, flushed = False\<rparr>"


text \<open>
  A request whose id is a channel, which the encoder rejects:
  \<^verbatim>\<open>NewRequest(make(chan int), "tools/list", nil)\<close>.
\<close>

definition chan_request :: JSONRPCMessage where
  "chan_request =
     NewRequest (Some (JUnsupported ''json: unsupported type: chan int'')) ''tools/list'' None"


section \<open>What one delivery does to a connection\<close>

text \<open>
  Two abbreviations used to state the results, not functions of the source:
  \<open>delivered\<close> is the connection that \<open>sendEvent\<close> leaves behind, and \<open>at_addr f c\<close>
  applies \<open>f\<close> to the connection stored at \<open>c\<close>.
\<close>

definition delivered ::
  "codec \<Rightarrow> string \<Rightarrow> jvalue \<Rightarrow> int \<Rightarrow> ClientConnection \<Rightarrow> ClientConnection" where
  "delivered J eventType data now c =
     (if Done c then c
      else if failing (Writer c) then c\<lparr>Done := True\<rparr>
      else c\<lparr>Writer := (Writer c)\<lparr>written := written (Writer c) @
                                        [formatSSEEvent J eventType data],
                                     flushed := True\<rparr>,
             LastSeen := now\<rparr>)"

definition at_addr :: "('c \<Rightarrow> 'c) \<Rightarrow> addr \<Rightarrow> (addr \<Rightarrow> 'c) \<Rightarrow> addr \<Rightarrow> 'c" where
  "at_addr f c h = h(c := f (h c))"

text \<open>
  A connection is out of reach of the handler when the registry does not point to it;
  it is allocated, so no later connection takes its address.
\<close>

definition out_of_reach :: "addr \<Rightarrow> StreamHandler \<Rightarrow> bool" where
  "out_of_reach a sh \<longleftrightarrow> a \<notin> set (map snd (clients sh)) \<and> a < next_addr sh"

text \<open>
  What every state that the hub can reach has: the registry is a map (its keys are
  unique), no connection is registered twice, and every registered connection is
  allocated.
\<close>

definition registry_ok :: "StreamHandler \<Rightarrow> bool" where
  "registry_ok sh \<longleftrightarrow>
     distinct (map fst (clients sh)) \<and> distinct (map snd (clients sh)) \<and>
     (\<forall>a \<in> set (map snd (clients sh)). a < next_addr sh)"

section \<open>The registry as a map\<close>

text \<open>Registering and removing keep the keys of the registry unique.\<close>

lemma registry_keys_distinct:
  "distinct (map fst (clients sh)) \<Longrightarrow>
     distinct (map fst (clients (addClient c sh))) \<and>
     distinct (map fst (clients (removeClient k sh)))"
  by (simp add: addClient_def removeClient_def distinct_update distinct_delete)

section \<open>Deliveries never fail\<close>

lemma sendEvent_eq:
  "sendEvent J c et d sh =
     Inr (sh\<lparr>heap := at_addr (delivered J et d (clock sh)) c (heap sh),
             calls := calls sh @ [(c, et, d)]\<rparr>)"
  by (simp add: sendEvent_def delivered_def close_chan_def Let_def at_addr_def)

lemma sendAll_eq:
  "sendAll J cs et d sh =
     Inr (sh\<lparr>heap := fold (at_addr (delivered J et d (clock sh))) cs (heap sh),
             calls := calls sh @ map (\<lambda>c. (c, et, d)) cs\<rparr>)"
proof (induction cs arbitrary: sh)
  case Nil
  show ?case by simp
next
  case (Cons c cs)
  show ?case by (simp add: sendEvent_eq Cons.IH)
qed

lemma fold_at_addr_other:
  "a \<notin> set cs \<Longrightarrow> fold (at_addr f) cs h a = h a"
  by (induction cs arbitrary: h) (auto simp: at_addr_def)

lemma fold_at_addr_distinct:
  "distinct cs \<Longrightarrow> a \<in> set cs \<Longrightarrow> fold (at_addr f) cs h a = f (h a)"
proof (induction cs arbitrary: h)
  case Nil
  then show ?case by simp
next
  case (Cons c cs)
  show ?case
  proof (cases "a = c")
    case True
    with Cons.prems have "a \<notin> set cs" by simp
    then have "fold (at_addr f) cs (at_addr f c h) a = at_addr f c h a"
      by (rule fold_at_addr_other)
    moreover have "at_addr f c h a = f (h a)"
      using True by (simp add: at_addr_def)
    ultimately show ?thesis by simp
  next
    case False
    with Cons.prems have "fold (at_addr f) cs (at_addr f c h) a = f (at_addr f c h a)"
      by (intro Cons.IH) auto
    moreover have "at_addr f c h a = h a"
      using False by (simp add: at_addr_def)
    ultimately show ?thesis by simp
  qed
qed

section \<open>Classification\<close>

text \<open>
  C1 (amended). For every message the event type is assigned by shape with the
  precedence notification (method, no id), request (method and id), error response (no
  method, id, error), success response (no method, id, result, no error), and
  \<open>mcp_message\<close> for anything else; so a message with method and id goes out as
  \<open>mcp_request\<close>, one with result and id and neither method nor error as \<open>mcp_response\<close>,
  one with error and id and no method as \<open>mcp_error\<close>, and one with a method and no id
  as \<open>mcp_notification\<close>.
\<close>

theorem getEventType_precedence:
  "getEventType m = eventType_by_precedence m \<and>
   (Method m \<noteq> '''' \<and> ID m \<noteq> None \<longrightarrow> getEventType m = ''mcp_request'') \<and>
   (Method m = '''' \<and> ID m \<noteq> None \<and> Result m \<noteq> None \<and> Error m = None \<longrightarrow>
      getEventType m = ''mcp_response'') \<and>
   (Method m = '''' \<and> ID m \<noteq> None \<and> Error m \<noteq> None \<longrightarrow> getEventType m = ''mcp_error'') \<and>
   (Method m \<noteq> '''' \<and> ID m = None \<longrightarrow> getEventType m = ''mcp_notification'')"
  by (simp add: getEventType_def eventType_by_precedence_def IsNotification_def
      IsResponse_def IsRequest_def IsError_def)

text \<open>The four constructors of the source, each classified as its name says.\<close>

theorem getEventType_precedence_witness:
  "getEventType (NewRequest (Some (JNum 1)) ''tools/list'' None) = ''mcp_request'' \<and>
   getEventType (NewResponse (Some (JNum 1)) (Some (JObj []))) = ''mcp_response'' \<and>
   getEventType (NewErrorResponse (Some (JNum 1)) (- 1) ''error'' None) = ''mcp_error'' \<and>
   getEventType (NewNotification ''notifications/initialized'' None) = ''mcp_notification''"
  using getEventType_precedence [of "NewRequest (Some (JNum 1)) ''tools/list'' None"]
    getEventType_precedence [of "NewResponse (Some (JNum 1)) (Some (JObj []))"]
    getEventType_precedence [of "NewErrorResponse (Some (JNum 1)) (- 1) ''error'' None"]
    getEventType_precedence [of "NewNotification ''notifications/initialized'' None"]
  by (simp add: NewRequest_def NewResponse_def NewErrorResponse_def NewNotification_def
      eventType_by_precedence_def)

text \<open>
  The precedence as stated asks no id of a response. The parse-error reply that the
  request handler builds has an error and neither method nor id: as stated it is an
  error response, and the code gives it the fallback type.
\<close>

theorem eventType_as_stated_counterexample:
  "getEventType (NewErrorResponse None (- 32700) ''Parse error'' None) = ''mcp_message'' \<and>
   eventType_as_stated (NewErrorResponse None (- 32700) ''Parse error'' None) = ''mcp_error''"
  by (simp add: getEventType_def eventType_as_stated_def NewErrorResponse_def
      IsNotification_def IsResponse_def IsRequest_def IsError_def)

section \<open>Broadcast\<close>

lemma StreamMessage_no_clients:
  "clients sh = [] \<Longrightarrow> StreamMessage J message (Some sh) = Inr (Some sh)"
  by (simp add: StreamMessage_def GetConnectedClients_def)

lemma BroadcastMessage_eq:
  "BroadcastMessage J et d sh =
     Inr (sh\<lparr>heap := fold (at_addr (delivered J et d (clock sh))) (map snd (clients sh)) (heap sh),
             calls := calls sh @ map (\<lambda>c. (c, et, d)) (map snd (clients sh))\<rparr>)"
  by (simp add: BroadcastMessage_def sendAll_eq)

lemma StreamMessage_eq:
  assumes "formatMessageForSSE J message = Inr eventData"
  shows "StreamMessage J message (Some sh) =
     Inr (Some (sh\<lparr>heap := fold (at_addr (delivered J (getEventType message) (JObj eventData)
                                       (clock sh)))
                          (map snd (clients sh)) (heap sh),
                  calls := calls sh @ map (\<lambda>c. (c, getEventType message, JObj eventData))
                          (map snd (clients sh))\<rparr>))"
proof (cases "clients sh = []")
  case True
  then show ?thesis by (simp add: StreamMessage_no_clients)
next
  case False
  then show ?thesis
    using assms
    by (simp add: StreamMessage_def GetConnectedClients_def BroadcastMessage_eq Let_def)
qed

lemma tools_list_format:
  "formatMessageForSSE json_codec tools_list_request = Inr tools_list_eventData"
  by code_simp

lemma tools_list_text:
  "formatSSEEvent json_codec ''mcp_request'' (JObj tools_list_eventData) = tools_list_frame"
  by code_simp

lemma tools_list_type: "getEventType tools_list_request = ''mcp_request''"
  by code_simp

lemma two_clients_simps:
  "clients two_clients = [(''client_1'', 0), (''client_2'', 1)]"
  "heap two_clients 0 = open_conn ''client_1'' False"
  "heap two_clients (Suc 0) = open_conn ''client_2'' False"
  "calls two_clients = []"
  by (simp_all add: two_clients_def handler_of_def open_conn_def upt_rec)

text \<open>What \<open>formatMessageForSSE\<close> returns, by the outcome of the two library calls.\<close>

lemma formatMessageForSSE_eq:
  assumes "Marshal J (JSONRPCMessage_value message) = Inr messageBytes"
    and "Unmarshal J messageBytes = Inr messageMap"
  shows "formatMessageForSSE J message =
     Inr ([(''mcp_message'', messageMap), (''timestamp'', JNum getCurrentTimestamp)] @
          (if IsRequest message then [(''message_type'', JStr ''request'')]
           else if IsResponse message then [(''message_type'', JStr ''response'')]
           else if IsNotification message then [(''message_type'', JStr ''notification'')]
           else []))"
  using assms by (simp add: formatMessageForSSE_def Let_def)

lemma formatMessageForSSE_Marshal_fails:
  "Marshal J (JSONRPCMessage_value message) = Inl err \<Longrightarrow>
     formatMessageForSSE J message = Inl err"
  by (simp add: formatMessageForSSE_def)

lemma formatMessageForSSE_Unmarshal_fails:
  "Marshal J (JSONRPCMessage_value message) = Inr messageBytes \<Longrightarrow>
   Unmarshal J messageBytes = Inl err \<Longrightarrow>
     formatMessageForSSE J message = Inl err"
  by (simp add: formatMessageForSSE_def)

lemma StreamMessage_format_fails:
  "clients sh \<noteq> [] \<Longrightarrow> formatMessageForSSE J message = Inl err \<Longrightarrow>
     StreamMessage J message (Some sh) = Inl (Failed err)"
  by (simp add: StreamMessage_def GetConnectedClients_def)

lemma tools_list_marshal:
  "Marshal json_codec (JSONRPCMessage_value tools_list_request) =
     Inr ''{\"id\":1,\"jsonrpc\":\"2.0\",\"method\":\"tools/list\"}''"
  by code_simp

lemma tools_list_unmarshal:
  "Unmarshal json_codec ''{\"id\":1,\"jsonrpc\":\"2.0\",\"method\":\"tools/list\"}'' =
     Inr (JObj [(''id'', JNum 1), (''jsonrpc'', JStr ''2.0''),
                (''method'', JStr ''tools/list'')])"
  by code_simp

lemma tools_list_shape: "IsRequest tools_list_request"
  by (simp add: tools_list_request_def NewRequest_def IsRequest_def)

lemma chan_request_shape: "IsRequest chan_request"
  by (simp add: chan_request_def NewRequest_def IsRequest_def)

lemma chan_request_marshal:
  "Marshal json_codec (JSONRPCMessage_value chan_request) =
     Inl ''json: unsupported type: chan int''"
  by code_simp

text \<open>
  C2 (amended). \<open>StreamMessage\<close> returns success and fans out for the messages that the
  JSON library serializes, not for every message of a request, response or
  notification shape. With \<open>N\<close> connections registered and a message for which
  \<^verbatim>\<open>json.Marshal\<close> and the \<^verbatim>\<open>json.Unmarshal\<close> after it succeed, it returns nil and makes
  exactly \<open>N\<close> deliveries (calls of \<open>sendEvent\<close>), one per registry entry in snapshot
  order, all with the event type of the message and the same event data: the decoded
  message, the timestamp and the message type of its shape. No other connection
  changes, and when the entries are distinct connections each of them that is open
  with a working writer has exactly the one frame appended, the same frame for all.
  With \<open>N > 0\<close> and a message for which one of the two library calls fails, it returns
  that error, and nothing is delivered. With no connection registered it returns nil
  and leaves the handler as it is, whatever the message: nothing is formatted and
  nothing written.
\<close>

theorem StreamMessage_fan_out:
  assumes "eventData =
     [(''mcp_message'', messageMap), (''timestamp'', JNum getCurrentTimestamp)] @
     (if IsRequest message then [(''message_type'', JStr ''request'')]
      else if IsResponse message then [(''message_type'', JStr ''response'')]
      else if IsNotification message then [(''message_type'', JStr ''notification'')]
      else [])"
  shows
  "(clients sh = [] \<longrightarrow> StreamMessage J message (Some sh) = Inr (Some sh)) \<and>
   (clients sh \<noteq> [] \<and> Marshal J (JSONRPCMessage_value message) = Inl err \<longrightarrow>
      StreamMessage J message (Some sh) = Inl (Failed err)) \<and>
   (clients sh \<noteq> [] \<and> Marshal J (JSONRPCMessage_value message) = Inr messageBytes \<and>
    Unmarshal J messageBytes = Inl err \<longrightarrow>
      StreamMessage J message (Some sh) = Inl (Failed err)) \<and>
   (Marshal J (JSONRPCMessage_value message) = Inr messageBytes \<and>
    Unmarshal J messageBytes = Inr messageMap \<longrightarrow>
      (\<exists>sh'. StreamMessage J message (Some sh) = Inr (Some sh') \<and>
         clients sh' = clients sh \<and>
         calls sh' = calls sh @
           map (\<lambda>c. (c, getEventType message, JObj eventData)) (map snd (clients sh)) \<and>
         int (length (calls sh')) = int (length (calls sh)) + GetConnectedClients sh \<and>
         (\<forall>c. c \<notin> set (map snd (clients sh)) \<longrightarrow> heap sh' c = heap sh c) \<and>
         (distinct (map snd (clients sh)) \<longrightarrow>
            (\<forall>c \<in> set (map snd (clients sh)).
               \<not> Done (heap sh c) \<and> \<not> failing (Writer (heap sh c)) \<longrightarrow>
               written (Writer (heap sh' c)) =
                 written (Writer (heap sh c)) @
                   [formatSSEEvent J (getEventType message) (JObj eventData)]))))"
proof (intro conjI impI)
  assume "clients sh = []"
  then show "StreamMessage J message (Some sh) = Inr (Some sh)"
    by (rule StreamMessage_no_clients)
next
  assume "clients sh \<noteq> [] \<and> Marshal J (JSONRPCMessage_value message) = Inl err"
  then show "StreamMessage J message (Some sh) = Inl (Failed err)"
    by (simp add: StreamMessage_format_fails formatMessageForSSE_Marshal_fails)
next
  assume "clients sh \<noteq> [] \<and> Marshal J (JSONRPCMessage_value message) = Inr messageBytes \<and>
    Unmarshal J messageBytes = Inl err"
  then show "StreamMessage J message (Some sh) = Inl (Failed err)"
    by (simp add: StreamMessage_format_fails formatMessageForSSE_Unmarshal_fails)
next
  assume lib: "Marshal J (JSONRPCMessage_value message) = Inr messageBytes \<and>
    Unmarshal J messageBytes = Inr messageMap"
  then have m: "Marshal J (JSONRPCMessage_value message) = Inr messageBytes"
    and u: "Unmarshal J messageBytes = Inr messageMap"
    by simp_all
  have fmt: "formatMessageForSSE J message = Inr eventData"
    unfolding assms using m u by (rule formatMessageForSSE_eq)
  let ?et = "getEventType message" and ?d = "JObj eventData"
  let ?cs = "map snd (clients sh)"
  let ?h = "fold (at_addr (delivered J ?et ?d (clock sh))) ?cs (heap sh)"
  let ?sh' = "sh\<lparr>heap := ?h, calls := calls sh @ map (\<lambda>c. (c, ?et, ?d)) ?cs\<rparr>"
  have 1: "StreamMessage J message (Some sh) = Inr (Some ?sh')"
    using fmt by (rule StreamMessage_eq)
  have 2: "\<forall>c. c \<notin> set ?cs \<longrightarrow> ?h c = heap sh c"
    by (simp add: fold_at_addr_other)
  have 3: "distinct ?cs \<longrightarrow>
      (\<forall>c \<in> set ?cs. \<not> Done (heap sh c) \<and> \<not> failing (Writer (heap sh c)) \<longrightarrow>
         written (Writer (?h c)) = written (Writer (heap sh c)) @ [formatSSEEvent J ?et ?d])"
    by (simp add: fold_at_addr_distinct delivered_def)
  show "\<exists>sh'. StreamMessage J message (Some sh) = Inr (Some sh') \<and>
         clients sh' = clients sh \<and>
         calls sh' = calls sh @ map (\<lambda>c. (c, ?et, ?d)) ?cs \<and>
         int (length (calls sh')) = int (length (calls sh)) + GetConnectedClients sh \<and>
         (\<forall>c. c \<notin> set ?cs \<longrightarrow> heap sh' c = heap sh c) \<and>
         (distinct ?cs \<longrightarrow>
            (\<forall>c \<in> set ?cs.
               \<not> Done (heap sh c) \<and> \<not> failing (Writer (heap sh c)) \<longrightarrow>
               written (Writer (heap sh' c)) =
                 written (Writer (heap sh c)) @ [formatSSEEvent J ?et ?d]))"
    apply (rule exI [of _ ?sh'])
    using 1 2 3 by (simp add: GetConnectedClients_def)
qed

text \<open>
  Two open connections and the request \<open>tools/list\<close>: two deliveries, the same frame
  on both writers. No connection and the request whose id is a channel: nil, and the
  handler untouched.
\<close>

theorem StreamMessage_fan_out_witness:
  "(\<exists>sh'. StreamMessage json_codec tools_list_request (Some two_clients) = Inr (Some sh') \<and>
      calls sh' = [(0, ''mcp_request'', JObj tools_list_eventData),
                   (1, ''mcp_request'', JObj tools_list_eventData)] \<and>
      written (Writer (heap sh' 0)) = [tools_list_frame] \<and>
      written (Writer (heap sh' 1)) = [tools_list_frame]) \<and>
   StreamMessage json_codec chan_request (Some (handler_of [] 5)) =
     Inr (Some (handler_of [] 5))"
proof -
  have ed: "tools_list_eventData =
     [(''mcp_message'', JObj [(''id'', JNum 1), (''jsonrpc'', JStr ''2.0''),
                             (''method'', JStr ''tools/list'')]),
      (''timestamp'', JNum getCurrentTimestamp)] @
     (if IsRequest tools_list_request then [(''message_type'', JStr ''request'')]
      else if IsResponse tools_list_request then [(''message_type'', JStr ''response'')]
      else if IsNotification tools_list_request then [(''message_type'', JStr ''notification'')]
      else [])"
    by (simp add: tools_list_eventData_def tools_list_shape getCurrentTimestamp_def)
  have "clients (handler_of [] 5) = []"
    by (simp add: handler_of_def)
  moreover note StreamMessage_fan_out [where sh = "handler_of [] 5" and J = json_codec
      and message = chan_request and messageMap = JNull, OF refl, THEN conjunct1]
  ultimately have none: "StreamMessage json_codec chan_request (Some (handler_of [] 5)) =
      Inr (Some (handler_of [] 5))"
    by (rule rev_mp)
  have lib: "Marshal json_codec (JSONRPCMessage_value tools_list_request) =
        Inr ''{\"id\":1,\"jsonrpc\":\"2.0\",\"method\":\"tools/list\"}'' \<and>
      Unmarshal json_codec ''{\"id\":1,\"jsonrpc\":\"2.0\",\"method\":\"tools/list\"}'' =
        Inr (JObj [(''id'', JNum 1), (''jsonrpc'', JStr ''2.0''),
                   (''method'', JStr ''tools/list'')])"
    using tools_list_marshal tools_list_unmarshal by (rule conjI)
  note StreamMessage_fan_out [where sh = two_clients and J = json_codec, OF ed,
      THEN conjunct2, THEN conjunct2, THEN conjunct2, THEN mp, OF lib]
  then obtain sh' where
    sh': "StreamMessage json_codec tools_list_request (Some two_clients) = Inr (Some sh')"
    and cl: "calls sh' = calls two_clients @
       map (\<lambda>c. (c, getEventType tools_list_request, JObj tools_list_eventData))
         (map snd (clients two_clients))"
    and wr: "distinct (map snd (clients two_clients)) \<longrightarrow>
       (\<forall>c \<in> set (map snd (clients two_clients)).
          \<not> Done (heap two_clients c) \<and> \<not> failing (Writer (heap two_clients c)) \<longrightarrow>
          written (Writer (heap sh' c)) =
            written (Writer (heap two_clients c)) @
              [formatSSEEvent json_codec (getEventType tools_list_request)
                 (JObj tools_list_eventData)])"
    by (elim exE conjE)
  from cl have c: "calls sh' = [(0, ''mcp_request'', JObj tools_list_eventData),
                   (1, ''mcp_request'', JObj tools_list_eventData)]"
    by (simp add: two_clients_simps tools_list_type)
  from wr have w: "written (Writer (heap sh' 0)) = [tools_list_frame]"
      "written (Writer (heap sh' 1)) = [tools_list_frame]"
    by (simp_all add: two_clients_simps tools_list_type tools_list_text open_conn_def)
  from sh' c w have ex:
    "\<exists>sh'. StreamMessage json_codec tools_list_request (Some two_clients) = Inr (Some sh') \<and>
      calls sh' = [(0, ''mcp_request'', JObj tools_list_eventData),
                   (1, ''mcp_request'', JObj tools_list_eventData)] \<and>
      written (Writer (heap sh' 0)) = [tools_list_frame] \<and>
      written (Writer (heap sh' 1)) = [tools_list_frame]"
    by (intro exI [of _ sh'] conjI)
  from ex none show ?thesis by (rule conjI)
qed

text \<open>
  The specification has \<open>StreamMessage\<close> return success for every well-formed message.
  The request whose id is a channel is a request by shape; with two clients connected
  \<open>StreamMessage\<close> returns the encoder's error, and delivers nothing.
\<close>

theorem StreamMessage_unserializable_counterexample:
  "IsRequest chan_request \<and> GetConnectedClients two_clients = 2 \<and>
   StreamMessage json_codec chan_request (Some two_clients) =
     Inl (Failed ''json: unsupported type: chan int'')"
  by (simp add: chan_request_shape GetConnectedClients_def two_clients_simps
      StreamMessage_format_fails formatMessageForSSE_Marshal_fails chan_request_marshal)

section \<open>Unicast\<close>

lemma SendToClient_eq:
  "SendToClient J cid et d sh =
     (case map_of (clients sh) cid of
        None \<Rightarrow> Inr sh
      | Some c \<Rightarrow> Inr (sh\<lparr>heap := at_addr (delivered J et d (clock sh)) c (heap sh),
                          calls := calls sh @ [(c, et, d)]\<rparr>))"
  by (simp add: SendToClient_def sendEvent_eq split: option.splits)

lemma StreamMessageToClient_eq:
  assumes "formatMessageForSSE J message = Inr eventData"
  shows "StreamMessageToClient J cid message (Some sh) =
     (case map_of (clients sh) cid of
        None \<Rightarrow> Inr (Some sh)
      | Some c \<Rightarrow>
          Inr (Some (sh\<lparr>heap := at_addr (delivered J (getEventType message) (JObj eventData)
                                          (clock sh)) c (heap sh),
                       calls := calls sh @ [(c, getEventType message, JObj eventData)]\<rparr>)))"
  using assms
  by (simp add: StreamMessageToClient_def SendToClient_eq Let_def split: option.splits)

lemma two_clients_lookup: "map_of (clients two_clients) ''nonexistent'' = None"
  by (simp add: two_clients_simps)

lemma StreamMessageToClient_format_fails:
  "formatMessageForSSE J message = Inl err \<Longrightarrow>
     StreamMessageToClient J clientID message (Some sh) = Inl (Failed err)"
  by (simp add: StreamMessageToClient_def)

text \<open>
  C5 (amended). \<open>StreamMessageToClient\<close> formats the message before it looks the id
  up. For an id that the registry does not hold and a message for which
  \<^verbatim>\<open>json.Marshal\<close> and the \<^verbatim>\<open>json.Unmarshal\<close> after it succeed, it returns nil and leaves
  the handler exactly as it was, whatever else is registered: no delivery is made and
  no connection changes. For a message for which one of the two library calls fails it
  returns that error, and again nothing is delivered.
\<close>

theorem StreamMessageToClient_missing_id:
  assumes "map_of (clients sh) clientID = None"
  shows
  "(Marshal J (JSONRPCMessage_value message) = Inr messageBytes \<and>
    Unmarshal J messageBytes = Inr messageMap \<longrightarrow>
      StreamMessageToClient J clientID message (Some sh) = Inr (Some sh)) \<and>
   (Marshal J (JSONRPCMessage_value message) = Inl err \<longrightarrow>
      StreamMessageToClient J clientID message (Some sh) = Inl (Failed err)) \<and>
   (Marshal J (JSONRPCMessage_value message) = Inr messageBytes \<and>
    Unmarshal J messageBytes = Inl err \<longrightarrow>
      StreamMessageToClient J clientID message (Some sh) = Inl (Failed err))"
proof (intro conjI impI)
  assume "Marshal J (JSONRPCMessage_value message) = Inr messageBytes \<and>
    Unmarshal J messageBytes = Inr messageMap"
  then have "\<exists>eventData. formatMessageForSSE J message = Inr eventData"
    by (auto intro: formatMessageForSSE_eq)
  then obtain eventData where "formatMessageForSSE J message = Inr eventData" ..
  with assms show "StreamMessageToClient J clientID message (Some sh) = Inr (Some sh)"
    by (simp add: StreamMessageToClient_eq)
next
  assume "Marshal J (JSONRPCMessage_value message) = Inl err"
  then show "StreamMessageToClient J clientID message (Some sh) = Inl (Failed err)"
    by (simp add: StreamMessageToClient_format_fails formatMessageForSSE_Marshal_fails)
next
  assume "Marshal J (JSONRPCMessage_value message) = Inr messageBytes \<and>
    Unmarshal J messageBytes = Inl err"
  then show "StreamMessageToClient J clientID message (Some sh) = Inl (Failed err)"
    by (simp add: StreamMessageToClient_format_fails formatMessageForSSE_Unmarshal_fails)
qed

text \<open>The request \<open>tools/list\<close> sent to \<open>nonexistent\<close> while two clients are connected.\<close>

theorem StreamMessageToClient_missing_id_witness:
  "StreamMessageToClient json_codec ''nonexistent'' tools_list_request (Some two_clients) =
     Inr (Some two_clients)"
proof -
  have lib: "Marshal json_codec (JSONRPCMessage_value tools_list_request) =
        Inr ''{\"id\":1,\"jsonrpc\":\"2.0\",\"method\":\"tools/list\"}'' \<and>
      Unmarshal json_codec ''{\"id\":1,\"jsonrpc\":\"2.0\",\"method\":\"tools/list\"}'' =
        Inr (JObj [(''id'', JNum 1), (''jsonrpc'', JStr ''2.0''),
                   (''method'', JStr ''tools/list'')])"
    using tools_list_marshal tools_list_unmarshal by (rule conjI)
  from StreamMessageToClient_missing_id [OF two_clients_lookup, where J = json_codec,
      THEN conjunct1, THEN mp, OF lib]
  show ?thesis .
qed

text \<open>
  The specification has \<open>StreamMessageToClient\<close> return success for every well-formed
  message when the id is missing. The request whose id is a channel is a request by
  shape; sent to \<open>nonexistent\<close> it comes back with the encoder's error.
\<close>

theorem StreamMessageToClient_unserializable_counterexample:
  "IsRequest chan_request \<and> map_of (clients two_clients) ''nonexistent'' = None \<and>
   StreamMessageToClient json_codec ''nonexistent'' chan_request (Some two_clients) =
     Inl (Failed ''json: unsupported type: chan int'')"
  by (simp add: chan_request_shape two_clients_lookup StreamMessageToClient_format_fails
      formatMessageForSSE_Marshal_fails chan_request_marshal)

section \<open>Messages of no shape\<close>

lemma bare_format: "formatMessageForSSE json_codec bare_message = Inr bare_eventData"
  by code_simp

lemma bare_text:
  "formatSSEEvent json_codec ''mcp_message'' (JObj bare_eventData) = bare_frame"
  by code_simp

lemma bare_type: "getEventType bare_message = ''mcp_message''"
  by code_simp

lemma bare_shape:
  "\<not> IsRequest bare_message" "\<not> IsResponse bare_message" "\<not> IsNotification bare_message"
  by (simp_all add: bare_message_def IsRequest_def IsResponse_def IsNotification_def)

lemma bare_marshal:
  "Marshal json_codec (JSONRPCMessage_value bare_message) = Inr ''{\"jsonrpc\":\"2.0\"}''"
  by code_simp

lemma bare_unmarshal:
  "Unmarshal json_codec ''{\"jsonrpc\":\"2.0\"}'' = Inr (JObj [(''jsonrpc'', JStr ''2.0'')])"
  by code_simp

text \<open>
  C4 (amended). A message that is neither request, response nor notification is not
  refused. Provided the library serializes it, \<open>StreamMessage\<close> and
  \<open>StreamMessageToClient\<close> return nil and make their deliveries as for any other
  message, to every registry entry and to the named connection if it is registered,
  under the event type \<open>mcp_message\<close> and with event data that holds the message and the
  timestamp and no \<open>message_type\<close>.
\<close>

theorem malformed_message_delivered:
  assumes "\<not> IsRequest m \<and> \<not> IsResponse m \<and> \<not> IsNotification m"
    and "Marshal J (JSONRPCMessage_value m) = Inr messageBytes"
    and "Unmarshal J messageBytes = Inr messageMap"
  shows "(\<exists>sh'. StreamMessage J m (Some sh) = Inr (Some sh') \<and>
            calls sh' = calls sh @
              map (\<lambda>c. (c, ''mcp_message'',
                         JObj [(''mcp_message'', messageMap),
                               (''timestamp'', JNum getCurrentTimestamp)]))
                  (map snd (clients sh))) \<and>
         (\<exists>sh'. StreamMessageToClient J clientID m (Some sh) = Inr (Some sh') \<and>
            calls sh' = calls sh @
              (case map_of (clients sh) clientID of
                 None \<Rightarrow> []
               | Some c \<Rightarrow> [(c, ''mcp_message'',
                             JObj [(''mcp_message'', messageMap),
                                   (''timestamp'', JNum getCurrentTimestamp)])]))"
proof -
  have fmt: "formatMessageForSSE J m =
      Inr [(''mcp_message'', messageMap), (''timestamp'', JNum getCurrentTimestamp)]"
    using assms by (simp add: formatMessageForSSE_def)
  have et: "getEventType m = ''mcp_message''"
    using assms(1) by (simp add: getEventType_def)
  show ?thesis
    by (simp add: StreamMessage_eq [OF fmt] StreamMessageToClient_eq [OF fmt] et
        split: option.splits)
qed

text \<open>The message \<^verbatim>\<open>{"jsonrpc":"2.0"}\<close>, broadcast to two clients and sent to the second.\<close>

theorem malformed_message_delivered_witness:
  "(\<exists>sh'. StreamMessage json_codec bare_message (Some two_clients) = Inr (Some sh') \<and>
      calls sh' = [(0, ''mcp_message'', JObj bare_eventData),
                   (1, ''mcp_message'', JObj bare_eventData)]) \<and>
   (\<exists>sh'. StreamMessageToClient json_codec ''client_2'' bare_message (Some two_clients) =
        Inr (Some sh') \<and>
      calls sh' = [(1, ''mcp_message'', JObj bare_eventData)])"
  using malformed_message_delivered [where m = bare_message and J = json_codec
      and sh = two_clients and clientID = "''client_2''", OF _ bare_marshal bare_unmarshal]
  by (simp add: bare_shape two_clients_simps bare_eventData_def getCurrentTimestamp_def)

text \<open>
  The specification has both calls return an error and deliver nothing. For the
  message \<^verbatim>\<open>{"jsonrpc":"2.0"}\<close> both return nil, and its frame is on the writers.
\<close>

theorem malformed_refused_counterexample:
  "\<not> IsRequest bare_message \<and> \<not> IsResponse bare_message \<and> \<not> IsNotification bare_message \<and>
   (\<exists>sh'. StreamMessage json_codec bare_message (Some two_clients) = Inr (Some sh') \<and>
      written (Writer (heap sh' 0)) = [bare_frame] \<and>
      written (Writer (heap sh' 1)) = [bare_frame]) \<and>
   (\<exists>sh'. StreamMessageToClient json_codec ''client_2'' bare_message (Some two_clients) =
        Inr (Some sh') \<and>
      written (Writer (heap sh' 1)) = [bare_frame])"
  by (simp add: bare_shape StreamMessage_eq [OF bare_format]
      StreamMessageToClient_eq [OF bare_format] two_clients_simps bare_type bare_text
      at_addr_def delivered_def open_conn_def)

section \<open>Shutdown\<close>

lemma closeAll_Done_mono:
  "closeAll cs h = Inr h' \<Longrightarrow> Done (h a) \<Longrightarrow> Done (h' a)"
  by (induction cs arbitrary: h) (auto simp: close_chan_def split: if_splits)

lemma closeAll_closes:
  "closeAll cs h = Inr h' \<Longrightarrow> a \<in> set cs \<Longrightarrow> Done (h' a)"
proof (induction cs arbitrary: h)
  case Nil
  then show ?case by simp
next
  case (Cons c cs)
  from Cons.prems(1) have rest: "closeAll cs (h(c := (h c)\<lparr>Done := True\<rparr>)) = Inr h'"
    by (simp add: close_chan_def split: if_splits)
  show ?case
  proof (cases "a = c")
    case True
    have "Done ((h(c := (h c)\<lparr>Done := True\<rparr>)) a)" using True by simp
    with rest show ?thesis by (rule closeAll_Done_mono)
  next
    case False
    with Cons.prems(2) have "a \<in> set cs" by simp
    with rest show ?thesis by (rule Cons.IH)
  qed
qed

lemma closeAll_other:
  "closeAll cs h = Inr h' \<Longrightarrow> a \<notin> set cs \<Longrightarrow> h' a = h a"
  by (induction cs arbitrary: h) (auto simp: close_chan_def split: if_splits)

lemma Stop_Inr:
  "Stop sh = Inr sh' \<Longrightarrow>
     \<exists>h. closeAll (map snd (clients sh)) (heap sh) = Inr h \<and>
         sh' = sh\<lparr>stopCh := True, heap := h, clients := []\<rparr>"
  by (auto simp: Stop_def close_chan_def split: if_splits sum.splits)

lemma two_clients_stopCh: "stopCh two_clients = False"
  by (simp add: two_clients_def handler_of_def)

section \<open>Connection ids\<close>

text \<open>The decimal digits can be read back, so the ids tell the clock readings apart.\<close>

lemma digit_char_props:
  assumes "0 \<le> k" "k < 10"
  shows "is_digit (digit_char (nat k))" and "of_char (digit_char (nat k)) - 48 = k"
proof -
  from assms have "k = 0 \<or> k = 1 \<or> k = 2 \<or> k = 3 \<or> k = 4 \<or> k = 5 \<or> k = 6 \<or>
      k = 7 \<or> k = 8 \<or> k = 9"
    by arith
  then show "is_digit (digit_char (nat k))" and "of_char (digit_char (nat k)) - 48 = k"
    by (auto simp: digit_char_def is_digit_def)
qed

lemma parse_digits_append:
  "\<forall>c \<in> set s. is_digit c \<Longrightarrow>
     parse_digits acc (s @ t) = parse_digits (fst (parse_digits acc s)) t"
  by (induction s arbitrary: acc) auto

lemma show_digits_digits: "0 \<le> n \<Longrightarrow> \<forall>c \<in> set (show_digits n). is_digit c"
proof (induction n rule: show_digits.induct)
  case (1 n)
  show ?case
  proof (cases "n < 10")
    case True
    with "1.prems" show ?thesis
      by (subst show_digits.simps) (simp add: digit_char_props)
  next
    case False
    with "1.prems" have "\<forall>c \<in> set (show_digits (n div 10)). is_digit c"
      by (intro "1.IH") auto
    moreover have "is_digit (digit_char (nat (n mod 10)))"
      by (rule digit_char_props) auto
    ultimately show ?thesis
      using False by (subst show_digits.simps) auto
  qed
qed

lemma show_digits_read: "0 \<le> n \<Longrightarrow> parse_digits 0 (show_digits n) = (n, [])"
proof (induction n rule: show_digits.induct)
  case (1 n)
  show ?case
  proof (cases "n < 10")
    case True
    with "1.prems" show ?thesis
      by (subst show_digits.simps) (simp add: digit_char_props)
  next
    case False
    with "1.prems" have ih: "parse_digits 0 (show_digits (n div 10)) = (n div 10, [])"
      by (intro "1.IH") auto
    have dg: "\<forall>c \<in> set (show_digits (n div 10)). is_digit c"
      using "1.prems" by (intro show_digits_digits) auto
    have d: "is_digit (digit_char (nat (n mod 10)))"
      "of_char (digit_char (nat (n mod 10))) - 48 = n mod 10"
      by (rule digit_char_props; simp)+
    have "parse_digits 0 (show_digits (n div 10) @ [digit_char (nat (n mod 10))]) =
          parse_digits (n div 10) [digit_char (nat (n mod 10))]"
      by (simp add: parse_digits_append [OF dg] ih)
    also have "\<dots> = (10 * (n div 10) + n mod 10, [])"
      using d by simp
    also have "10 * (n div 10) + n mod 10 = n" by simp
    finally show ?thesis
      using False by (subst show_digits.simps) simp
  qed
qed

lemma show_digits_inj:
  assumes "0 \<le> a" "0 \<le> b" "show_digits a = show_digits b"
  shows "a = b"
proof -
  have "parse_digits 0 (show_digits a) = parse_digits 0 (show_digits b)"
    using assms(3) by simp
  with assms(1,2) show ?thesis by (simp add: show_digits_read)
qed

lemma show_digits_head:
  assumes "0 \<le> n"
  shows "show_digits n \<noteq> [] \<and> is_digit (hd (show_digits n))"
proof -
  have ne: "show_digits n \<noteq> []"
    by (subst show_digits.simps) simp
  with show_digits_digits [OF assms] show ?thesis by simp
qed

lemma show_int_inj: "show_int a = show_int b \<Longrightarrow> a = b"
proof -
  assume eq: "show_int a = show_int b"
  have minus: "\<not> is_digit (CHR ''-'')" by (simp add: is_digit_def)
  consider "a < 0" "b < 0" | "a < 0" "0 \<le> b" | "0 \<le> a" "b < 0" | "0 \<le> a" "0 \<le> b"
    by linarith
  then show ?thesis
  proof cases
    case 1
    with eq have "show_digits (- a) = show_digits (- b)" by (simp add: show_int_def)
    with 1 have "- a = - b" by (intro show_digits_inj) auto
    then show ?thesis by simp
  next
    case 2
    with eq have "show_digits b = CHR ''-'' # show_digits (- a)" by (simp add: show_int_def)
    with show_digits_head [OF 2(2)] minus show ?thesis by simp
  next
    case 3
    with eq have "show_digits a = CHR ''-'' # show_digits (- b)" by (simp add: show_int_def)
    with show_digits_head [OF 3(1)] minus show ?thesis by simp
  next
    case 4
    with eq have "show_digits a = show_digits b" by (simp add: show_int_def)
    with 4 show ?thesis by (intro show_digits_inj)
  qed
qed

lemma generateClientID_eq_iff:
  "generateClientID sh = generateClientID sh' \<longleftrightarrow> clock sh = clock sh'"
  by (auto simp: generateClientID_def dest: show_int_inj)

lemma show_int_example: "show_int 1700000000000000000 = ''1700000000000000000''"
  by code_simp

text \<open>
  C8. The id is the clock reading and nothing else: two ids differ exactly when the
  readings do (\<open>generateClientID_eq_iff\<close>). Two connections accepted at the same
  reading get the same id; the second replaces the first in the registry, which then
  counts one client.
\<close>

theorem generateClientID_collision:
  "\<exists>sh1 sh2.
     HandleSSE_enter json_codec working_writer True (NewStreamHandler 1700000000000000000) =
       Inr sh1 \<and>
     HandleSSE_enter json_codec working_writer True sh1 = Inr sh2 \<and>
     ClientID (heap sh2 0) = ''client_1700000000000000000'' \<and>
     ClientID (heap sh2 1) = ''client_1700000000000000000'' \<and>
     clients sh2 = [(''client_1700000000000000000'', 1)] \<and>
     GetConnectedClients sh2 = 1"
  by (simp add: HandleSSE_enter_def NewStreamHandler_def generateClientID_def
      show_int_example addClient_def sendEvent_eq Let_def at_addr_def delivered_def
      working_writer_def GetConnectedClients_def)

section \<open>The frame and its timestamp\<close>

lemma formatSSEEvent_frame:
  "Marshal J d = Inr bytes \<Longrightarrow>
     formatSSEEvent J et d = ''event: '' @ et @ ''\<newline>data: '' @ bytes @ ''\<newline>\<newline>''"
  by (simp add: formatSSEEvent_def)

lemma formatMessageForSSE_fields:
  assumes "formatMessageForSSE J m = Inr eventData"
    and "IsRequest m \<or> IsResponse m \<or> IsNotification m"
  shows "\<exists>messageMap t. eventData =
           [(''mcp_message'', messageMap), (''timestamp'', JNum getCurrentTimestamp),
            (''message_type'', JStr t)] \<and>
           t \<in> {''request'', ''response'', ''notification''}"
  using assms
  by (auto simp: formatMessageForSSE_def Let_def split: sum.splits if_splits)

text \<open>
  C6. The frame of a classified message has the two lines and the three fields, but
  its timestamp is the constant of \<open>getCurrentTimestamp\<close>, not the time of the
  delivery: a request delivered when the clock reads 1700000000 seconds carries
  1640995200, while \<open>LastSeen\<close> of the same delivery is the clock's reading.
\<close>

theorem timestamp_is_placeholder:
  "\<exists>sh'. StreamMessage json_codec tools_list_request
            (Some (handler_of [open_conn ''client_1'' False] 1700000000000000000)) =
            Inr (Some sh') \<and>
         written (Writer (heap sh' 0)) = [tools_list_frame] \<and>
         LastSeen (heap sh' 0) = 1700000000000000000 \<and>
         map_of tools_list_eventData ''timestamp'' = Some (JNum 1640995200)"
proof -
  have "map_of tools_list_eventData ''timestamp'' = Some (JNum 1640995200)"
    by (simp add: tools_list_eventData_def)
  then show ?thesis
    by (simp add: StreamMessage_eq [OF tools_list_format] tools_list_type tools_list_text
        handler_of_def open_conn_def at_addr_def delivered_def)
qed

section \<open>A registration under an id already present\<close>

lemma map_of_value: "map_of al k = Some v \<Longrightarrow> v \<in> set (map snd al)"
  by (force dest: map_of_SomeD)


lemma update_values: "set (map snd (AList.update k v al)) \<subseteq> insert v (set (map snd al))"
  by (induction al) auto

lemma delete_values: "set (map snd (AList.delete k al)) \<subseteq> set (map snd al)"
  by (induction al) auto



lemma sendHeartbeat_eq:
  "sendHeartbeat J sh =
     Inr (sh\<lparr>heap := fold (at_addr (delivered J ''heartbeat''
                          (JObj [(''timestamp'', JNum (clock sh div 1000000000))]) (clock sh)))
                        (map snd (clients sh)) (heap sh),
             calls := calls sh @
               map (\<lambda>c. (c, ''heartbeat'',
                          JObj [(''timestamp'', JNum (clock sh div 1000000000))]))
                 (map snd (clients sh))\<rparr>)"
  by (simp add: sendHeartbeat_def sendAll_eq)

lemma HandleSSE_greet_eq:
  "HandleSSE_greet J c sh =
     Inr (sh\<lparr>heap := at_addr (delivered J ''connected''
                          (JObj [(''clientId'', JStr (ClientID (heap sh c))),
                                 (''message'', JStr ''Connected to MCP stream'')])
                          (clock sh)) c (heap sh),
             calls := calls sh @
               [(c, ''connected'',
                 JObj [(''clientId'', JStr (ClientID (heap sh c))),
                       (''message'', JStr ''Connected to MCP stream'')])]\<rparr>)"
  by (simp add: HandleSSE_greet_def sendEvent_eq)

text \<open>\<open>HandleSSE_enter\<close> is the registration followed at once by the greeting.\<close>

lemma HandleSSE_enter_split:
  "HandleSSE_enter J w canFlush sh =
     (if canFlush then HandleSSE_greet J (next_addr sh) (HandleSSE_register w canFlush sh)
      else Inr sh)"
  by (simp add: HandleSSE_enter_def HandleSSE_register_def HandleSSE_greet_def Let_def
      addClient_def)

lemma HandleSSE_register_eq:
  "HandleSSE_register w True sh =
     sh\<lparr>heap := (heap sh)(next_addr sh :=
            \<lparr>ClientID = generateClientID sh, Writer = w, Done = False, LastSeen = clock sh\<rparr>),
        next_addr := Suc (next_addr sh),
        clients := AList.update (generateClientID sh) (next_addr sh) (clients sh)\<rparr>"
  by (simp add: HandleSSE_register_def Let_def addClient_def)

text \<open>
  No operation of the hub touches a connection that is out of reach, but the greeting
  of that very connection.
\<close>

lemma step_out_of_reach:
  assumes "out_of_reach a sh" and "step J x sh = Inr sh'" and "x \<noteq> Greet a"
  shows "out_of_reach a sh' \<and> heap sh' a = heap sh a"
proof (cases x)
  case (Broadcast et d)
  with assms show ?thesis
    by (auto simp: out_of_reach_def BroadcastMessage_eq fold_at_addr_other)
next
  case (Send cid et d)
  show ?thesis
  proof (cases "map_of (clients sh) cid")
    case None
    with assms Send show ?thesis by (simp add: SendToClient_eq)
  next
    case (Some c)
    then have "c \<in> set (map snd (clients sh))"
      by (rule map_of_value)
    with assms(1) have "c \<noteq> a" by (auto simp: out_of_reach_def)
    with assms Send Some show ?thesis
      by (auto simp: SendToClient_eq out_of_reach_def at_addr_def)
  qed
next
  case Heartbeat
  with assms show ?thesis
    by (auto simp: out_of_reach_def sendHeartbeat_eq fold_at_addr_other)
next
  case (Register w ok)
  show ?thesis
  proof (cases ok)
    case False
    with assms Register show ?thesis by (simp add: HandleSSE_register_def)
  next
    case True
    from assms(1) have ne: "a \<noteq> next_addr sh" and notin: "a \<notin> set (map snd (clients sh))"
      and lt: "a < next_addr sh"
      by (auto simp: out_of_reach_def)
    have up: "a \<notin> set (map snd (AList.update k (next_addr sh) (clients sh)))" for k
      using update_values [of k "next_addr sh" "clients sh"] ne notin by auto
    from assms(2) Register True
    have "clients sh' = AList.update (generateClientID sh) (next_addr sh) (clients sh)"
      and "next_addr sh' = Suc (next_addr sh)"
      and "heap sh' a = heap sh a"
      using ne
      by (auto simp: HandleSSE_register_eq)
    with up lt show ?thesis
      by (simp add: out_of_reach_def)
  qed
next
  case (Greet c)
  with assms(3) have ne: "c \<noteq> a" by simp
  show ?thesis
  proof (cases "c < next_addr sh")
    case False
    with assms Greet show ?thesis by simp
  next
    case True
    with assms(2) Greet ne
    have "clients sh' = clients sh" and "next_addr sh' = next_addr sh"
      and "heap sh' a = heap sh a"
      by (auto simp: HandleSSE_greet_eq at_addr_def)
    with assms(1) show ?thesis by (simp add: out_of_reach_def)
  qed
next
  case (Leave cid)
  with assms(2) have "clients sh' = AList.delete cid (clients sh)"
    and "next_addr sh' = next_addr sh" and "heap sh' a = heap sh a"
    by (auto simp: HandleSSE_leave_def removeClient_def)
  moreover from assms(1) have "a \<notin> set (map snd (AList.delete cid (clients sh)))"
    using delete_values [of cid "clients sh"] by (auto simp: out_of_reach_def)
  ultimately show ?thesis
    using assms(1) by (simp add: out_of_reach_def)
next
  case (Tick t)
  with assms show ?thesis by (auto simp: out_of_reach_def)
next
  case Shutdown
  with assms(2) have "Stop sh = Inr sh'" by simp
  then obtain h where h: "closeAll (map snd (clients sh)) (heap sh) = Inr h"
    and sh': "sh' = sh\<lparr>stopCh := True, heap := h, clients := []\<rparr>"
    by (blast dest: Stop_Inr)
  from assms(1) have "a \<notin> set (map snd (clients sh))" by (simp add: out_of_reach_def)
  with h have "h a = heap sh a" by (rule closeAll_other)
  with assms(1) sh' show ?thesis by (simp add: out_of_reach_def)
qed


text \<open>Once its \<open>Done\<close> is closed, its greeting does not touch it either.\<close>

lemma step_closed_out_of_reach:
  assumes "out_of_reach a sh" and "Done (heap sh a)" and "step J x sh = Inr sh'"
  shows "out_of_reach a sh' \<and> heap sh' a = heap sh a"
proof (cases "x = Greet a")
  case False
  with assms(1,3) show ?thesis by (rule step_out_of_reach)
next
  case True
  from assms(1) have lt: "a < next_addr sh" by (simp add: out_of_reach_def)
  from assms(2) have same: "delivered J et d now (heap sh a) = heap sh a" for et d now
    by (simp add: delivered_def)
  from assms(3) True lt
  have "clients sh' = clients sh" and "next_addr sh' = next_addr sh"
    and "heap sh' a = heap sh a"
    by (auto simp: HandleSSE_greet_eq at_addr_def same)
  with assms(1) show ?thesis by (simp add: out_of_reach_def)
qed

lemma run_closed_out_of_reach:
  "out_of_reach a sh \<Longrightarrow> Done (heap sh a) \<Longrightarrow> run J xs sh = Inr sh' \<Longrightarrow>
     out_of_reach a sh' \<and> heap sh' a = heap sh a"
proof (induction xs arbitrary: sh)
  case Nil
  then show ?case by simp
next
  case (Cons x xs)
  from Cons.prems(3) obtain sh1 where s1: "step J x sh = Inr sh1" and r: "run J xs sh1 = Inr sh'"
    by (auto split: sum.splits)
  from step_closed_out_of_reach [OF Cons.prems(1,2) s1]
  have o1: "out_of_reach a sh1" and h1: "heap sh1 a = heap sh a" by simp_all
  with Cons.prems(2) have d1: "Done (heap sh1 a)" by simp
  from Cons.IH [OF o1 d1 r] h1 show ?case by simp
qed






section \<open>The states the hub can reach\<close>

text \<open>
  \<open>registry_ok\<close> holds of a new handler and every operation keeps it, so the
  distinctness and allocation asked of the registry above and below hold wherever the
  hub can get to.
\<close>

lemma update_fresh_distinct:
  "distinct (map snd al) \<Longrightarrow> v \<notin> set (map snd al) \<Longrightarrow>
     distinct (map snd (AList.update k v al))"
proof (induction al)
  case Nil
  then show ?case by simp
next
  case (Cons p al)
  obtain k' v' where p: "p = (k', v')" by (cases p)
  show ?case
  proof (cases "k' = k")
    case True
    with Cons.prems p show ?thesis by auto
  next
    case False
    from Cons.prems p have "distinct (map snd (AList.update k v al))"
      by (intro Cons.IH) auto
    moreover have "v' \<notin> set (map snd (AList.update k v al))"
      using update_values [of k v al] Cons.prems p by auto
    ultimately show ?thesis using False p by simp
  qed
qed

lemma delete_distinct:
  "distinct (map snd al) \<Longrightarrow> distinct (map snd (AList.delete k al))"
proof (induction al)
  case Nil
  then show ?case by simp
next
  case (Cons p al)
  then show ?case
    using delete_values [of k al] by (cases p) auto
qed

lemma update_bound:
  "\<forall>a \<in> set (map snd al). a < n \<Longrightarrow> v < n \<Longrightarrow>
     \<forall>a \<in> set (map snd (AList.update k v al)). a < (n::nat)"
  by (induction al) auto

lemma delete_bound:
  "\<forall>a \<in> set (map snd al). a < n \<Longrightarrow>
     \<forall>a \<in> set (map snd (AList.delete k al)). a < (n::nat)"
  by (induction al) auto


lemma registry_ok_same:
  "clients sh' = clients sh \<Longrightarrow> next_addr sh' = next_addr sh \<Longrightarrow>
     registry_ok sh' = registry_ok sh"
  by (simp add: registry_ok_def)

lemma register_registry_ok:
  assumes "registry_ok sh"
  shows "registry_ok (HandleSSE_register w ok sh)"
proof (cases ok)
  case False
  with assms show ?thesis by (simp add: HandleSSE_register_def)
next
  case True
  let ?al = "AList.update (generateClientID sh) (next_addr sh) (clients sh)"
  from True
  have c: "clients (HandleSSE_register w ok sh) = ?al"
    and n: "next_addr (HandleSSE_register w ok sh) = Suc (next_addr sh)"
    by (simp_all add: HandleSSE_register_eq)
  from assms have d1: "distinct (map fst (clients sh))"
    and d2: "distinct (map snd (clients sh))"
    and b: "\<forall>a \<in> set (map snd (clients sh)). a < next_addr sh"
    unfolding registry_ok_def by blast+
  from b have fresh: "next_addr sh \<notin> set (map snd (clients sh))"
    by blast
  from d1 have 1: "distinct (map fst ?al)"
    by (rule distinct_update)
  from d2 fresh have 2: "distinct (map snd ?al)"
    by (rule update_fresh_distinct)
  from b have "\<forall>a \<in> set (map snd (clients sh)). a < Suc (next_addr sh)"
    by (simp add: less_SucI)
  then have 3: "\<forall>a \<in> set (map snd ?al). a < Suc (next_addr sh)"
    by (rule update_bound) simp
  from 1 2 3 show ?thesis
    unfolding registry_ok_def c n by blast
qed

lemma leave_registry_ok:
  assumes "registry_ok sh"
  shows "registry_ok (HandleSSE_leave cid sh)"
proof -
  let ?al = "AList.delete cid (clients sh)"
  have c: "clients (HandleSSE_leave cid sh) = ?al"
    and n: "next_addr (HandleSSE_leave cid sh) = next_addr sh"
    by (simp_all add: HandleSSE_leave_def removeClient_def)
  from assms have d1: "distinct (map fst (clients sh))"
    and d2: "distinct (map snd (clients sh))"
    and b: "\<forall>a \<in> set (map snd (clients sh)). a < next_addr sh"
    unfolding registry_ok_def by blast+
  from d1 have 1: "distinct (map fst ?al)"
    by (rule distinct_delete)
  from d2 have 2: "distinct (map snd ?al)"
    by (rule delete_distinct)
  from b have 3: "\<forall>a \<in> set (map snd ?al). a < next_addr sh"
    by (rule delete_bound)
  from 1 2 3 show ?thesis
    unfolding registry_ok_def c n by blast
qed

lemma step_registry_ok:
  assumes "registry_ok sh" and "step J x sh = Inr sh'"
  shows "registry_ok sh'"
proof (cases x)
  case (Broadcast et d)
  with assms(2) have "clients sh' = clients sh" "next_addr sh' = next_addr sh"
    by (auto simp: BroadcastMessage_eq)
  with assms(1) show ?thesis using registry_ok_same [of sh' sh] by simp
next
  case (Send cid et d)
  with assms(2) have "clients sh' = clients sh" "next_addr sh' = next_addr sh"
    by (auto simp: SendToClient_eq split: option.splits)
  with assms(1) show ?thesis using registry_ok_same [of sh' sh] by simp
next
  case Heartbeat
  with assms(2) have "clients sh' = clients sh" "next_addr sh' = next_addr sh"
    by (auto simp: sendHeartbeat_eq)
  with assms(1) show ?thesis using registry_ok_same [of sh' sh] by simp
next
  case (Register w ok)
  with assms(2) have "sh' = HandleSSE_register w ok sh" by simp
  with assms(1) show ?thesis by (simp add: register_registry_ok)
next
  case (Greet c)
  with assms(2) have "clients sh' = clients sh" "next_addr sh' = next_addr sh"
    by (auto simp: HandleSSE_greet_eq split: if_splits)
  with assms(1) show ?thesis using registry_ok_same [of sh' sh] by simp
next
  case (Leave cid)
  with assms(2) have "sh' = HandleSSE_leave cid sh" by simp
  with assms(1) show ?thesis by (simp add: leave_registry_ok)
next
  case (Tick t)
  with assms(2) have "clients sh' = clients sh" "next_addr sh' = next_addr sh"
    by auto
  with assms(1) show ?thesis using registry_ok_same [of sh' sh] by simp
next
  case Shutdown
  with assms(2) have "Stop sh = Inr sh'" by simp
  then obtain h where "sh' = sh\<lparr>stopCh := True, heap := h, clients := []\<rparr>"
    by (blast dest: Stop_Inr)
  then show ?thesis by (simp add: registry_ok_def)
qed

lemma run_registry_ok:
  "registry_ok sh \<Longrightarrow> run J xs sh = Inr sh' \<Longrightarrow> registry_ok sh'"
proof (induction xs arbitrary: sh)
  case Nil
  then show ?case by simp
next
  case (Cons x xs)
  from Cons.prems(2) obtain sh1 where s1: "step J x sh = Inr sh1" and r: "run J xs sh1 = Inr sh'"
    by (auto split: sum.splits)
  from Cons.prems(1) s1 have "registry_ok sh1" by (rule step_registry_ok)
  then show ?case using r by (rule Cons.IH)
qed

lemma NewStreamHandler_ok: "registry_ok (NewStreamHandler now)"
  by (simp add: registry_ok_def NewStreamHandler_def)

section \<open>After shutdown\<close>

text \<open>
  C3. When \<open>Stop\<close> returns, the registry is empty: the count is 0, and a broadcast, a
  unicast to any id and a heartbeat each return at once with the handler unchanged, so
  none of them writes to any connection. Every connection that was registered has its
  \<open>Done\<close> closed, a delivery attempted on it directly leaves the whole store as it is,
  and no later run of the hub's operations changes it (its address being below
  \<open>next_addr\<close>, as that of every connection \<open>HandleSSE\<close> creates): it stays as \<open>Stop\<close>
  left it.
\<close>

theorem Stop_drains:
  assumes "Stop sh = Inr sh'"
  shows "GetConnectedClients sh' = 0 \<and>
         BroadcastMessage J eventType data sh' = Inr sh' \<and>
         SendToClient J clientID eventType data sh' = Inr sh' \<and>
         sendHeartbeat J sh' = Inr sh' \<and>
         (\<forall>c \<in> set (map snd (clients sh)).
            Done (heap sh' c) \<and>
            (\<exists>sh''. sendEvent J c eventType data sh' = Inr sh'' \<and> heap sh'' = heap sh') \<and>
            (c < next_addr sh \<and> run J ops sh' = Inr sh2 \<longrightarrow> heap sh2 c = heap sh' c))"
proof -
  from assms obtain h where h: "closeAll (map snd (clients sh)) (heap sh) = Inr h"
    and sh': "sh' = sh\<lparr>stopCh := True, heap := h, clients := []\<rparr>"
    by (blast dest: Stop_Inr)
  have empty: "clients sh' = []" and heap: "heap sh' = h" and brk: "next_addr sh' = next_addr sh"
    by (simp_all add: sh')
  have closed: "Done (heap sh' c)" if "c \<in> set (map snd (clients sh))" for c
    using closeAll_closes [OF h that] by (simp add: heap)
  have noop: "\<exists>sh''. sendEvent J c eventType data sh' = Inr sh'' \<and> heap sh'' = heap sh'"
    if "c \<in> set (map snd (clients sh))" for c
    using closed [OF that] by (simp add: sendEvent_def Let_def)
  have later: "heap sh2 c = heap sh' c"
    if "c \<in> set (map snd (clients sh))" "c < next_addr sh" "run J ops sh' = Inr sh2" for c
  proof -
    from that(2) empty brk have "out_of_reach c sh'"
      by (simp add: out_of_reach_def)
    from run_closed_out_of_reach [OF this closed [OF that(1)] that(3)] show ?thesis by simp
  qed
  from empty have "GetConnectedClients sh' = 0"
    by (simp add: GetConnectedClients_def)
  moreover from empty have "BroadcastMessage J eventType data sh' = Inr sh'"
    by (simp add: BroadcastMessage_def)
  moreover from empty have "SendToClient J clientID eventType data sh' = Inr sh'"
    by (simp add: SendToClient_def)
  moreover from empty have "sendHeartbeat J sh' = Inr sh'"
    by (simp add: sendHeartbeat_def)
  ultimately show ?thesis using closed noop later by blast
qed

text \<open>\<open>Stop\<close> with two open connections registered.\<close>

theorem Stop_drains_witness:
  "\<exists>sh'. Stop two_clients = Inr sh' \<and> GetConnectedClients sh' = 0 \<and>
         BroadcastMessage json_codec ''test'' JNull sh' = Inr sh' \<and>
         SendToClient json_codec ''client_1'' ''test'' JNull sh' = Inr sh' \<and>
         sendHeartbeat json_codec sh' = Inr sh' \<and>
         Done (heap sh' 0) \<and> Done (heap sh' 1)"
proof -
  have "\<exists>sh'. Stop two_clients = Inr sh'"
    by (simp add: Stop_def close_chan_def two_clients_simps two_clients_stopCh open_conn_def)
  then obtain sh' where st: "Stop two_clients = Inr sh'" ..
  from Stop_drains [OF st, of json_codec "''test''" JNull "''client_1''"]
  have "GetConnectedClients sh' = 0 \<and>
         BroadcastMessage json_codec ''test'' JNull sh' = Inr sh' \<and>
         SendToClient json_codec ''client_1'' ''test'' JNull sh' = Inr sh' \<and>
         sendHeartbeat json_codec sh' = Inr sh' \<and>
         Done (heap sh' 0) \<and> Done (heap sh' 1)"
    by (simp add: two_clients_simps)
  with st show ?thesis by (intro exI [of _ sh'] conjI) simp_all
qed

text \<open>
  C7. Closing \<open>Done\<close> is not idempotent in the code: \<open>Stop\<close> closes \<open>Done\<close> of every
  registered connection without looking at it. Here a broadcast to a connection whose
  writer fails closes its \<open>Done\<close> and leaves it registered, and \<open>Stop\<close> then panics.
\<close>

theorem Stop_after_write_failure_panics:
  "\<exists>sh1. BroadcastMessage json_codec ''test'' (JObj [(''message'', JStr ''test broadcast'')])
            failing_client = Inr sh1 \<and>
         clients sh1 = [(''client_1'', 0)] \<and>
         Done (heap sh1 0) \<and>
         Stop sh1 = Inl (Panic ''close of closed channel'')"
  by (simp add: BroadcastMessage_eq failing_client_def handler_of_def open_conn_def
      at_addr_def delivered_def Stop_def close_chan_def)

end
